theory Spec2Isabelle
  imports Complex_Main "HOL-Library.Word"
begin

section \<open>JavaScript numbers and errors\<close>

text \<open>
  The front end computes with JavaScript numbers.  They are modelled as exact reals:
  \<open>Math.round v\<close> is \<open>\<lfloor>v + 1/2\<rfloor>\<close>, which is HOL's \<^const>\<open>round\<close>, and
  \<open>a || 1\<close> on a number is \<open>1\<close> when \<open>a\<close> is zero.  Exceptions thrown by the
  platform are values of \<open>js_error\<close>.
\<close>

datatype js_error = TypeError | IndexSizeError | InvalidStateError | LoadError


section \<open>Crop selection (hooks/useCropSelection.ts)\<close>

record CropRect =
  rect_x :: real
  rect_y :: real
  rect_w :: real
  rect_h :: real

text \<open>
  The hook's state: the three \<open>useState\<close> cells and the \<open>startRef\<close> cell.  The
  overlay element of \<open>overlayRef\<close> is passed to the handlers as the left and top of
  its bounding rectangle, \<open>None\<close> while the element is not mounted.
\<close>

record CropSelectionState =
  isActive :: bool
  rect :: "CropRect option"
  isDragging :: bool
  startRef :: "(real \<times> real) option"












definition cancelCrop :: "CropSelectionState \<Rightarrow> CropSelectionState" where
  "cancelCrop s = s\<lparr>isActive := False, rect := None, isDragging := False, startRef := None\<rparr>"

text \<open>\<open>confirmCrop\<close> returns the rectangle (or \<open>null\<close>) and the state it leaves.\<close>

definition confirmCrop :: "CropSelectionState \<Rightarrow> CropRect option \<times> CropSelectionState" where
  "confirmCrop s =
     (case rect s of
        None \<Rightarrow> (None, s)
      | Some r \<Rightarrow>
          if rect_w r < 4 \<or> rect_h r < 4 then (None, s)
          else (Some r, s\<lparr>isActive := False, isDragging := False, startRef := None\<rparr>))"


section \<open>Upload sessions (backend/main.mo)\<close>

type_synonym byte = "8 word"

datatype EnhancementMode = standard | anime

text \<open>
  A Motoko \<open>Map\<close> is a finite map; \<open>size\<close> is the number of its keys.  The chunk map
  of a session is mutated in place by \<open>uploadChunk\<close>; in the model the session stored
  under the session id is replaced by the updated one.
\<close>

record UploadSession =
  totalChunks :: nat
  receivedChunks :: "nat \<rightharpoonup> byte list"
  fileType :: string

record BackendState =
  images :: "string \<rightharpoonup> byte list"
  uploadSessions :: "string \<rightharpoonup> UploadSession"
  nextImageId :: nat

text \<open>The value a shared function returns on \<open>finalizeUpload\<close>: the record
  \<open>{ ok : ?{ imageId; enhancedImage }; err : Text }\<close>.\<close>

record FinalizeResult =
  ok :: "(string \<times> byte list) option"
  err :: string

datatype trap = Trap string

definition initialBackend :: BackendState where
  "initialBackend = \<lparr>images = Map.empty, uploadSessions = Map.empty, nextImageId = 0\<rparr>"

text \<open>\<open>Nat.toText\<close>: the decimal digits of a natural number.\<close>

definition digitChar :: "nat \<Rightarrow> char" where
  "digitChar d = ''0123456789'' ! d"

fun toText :: "nat \<Rightarrow> string" where
  "toText n = (if n < 10 then [digitChar n] else toText (n div 10) @ [digitChar (n mod 10)])"

declare toText.simps [simp del]

definition initUpload :: "BackendState \<Rightarrow> nat \<Rightarrow> string \<Rightarrow> string \<times> BackendState" where
  "initUpload st totalChunks' fileType' =
     (let sessionId = ''Session-'' @ toText (nextImageId st);
          session = \<lparr>totalChunks = totalChunks', receivedChunks = Map.empty, fileType = fileType'\<rparr>
      in (sessionId,
          st\<lparr>nextImageId := nextImageId st + 1,
             uploadSessions := (uploadSessions st)(sessionId \<mapsto> session)\<rparr>))"

definition uploadChunk ::
  "BackendState \<Rightarrow> string \<Rightarrow> nat \<Rightarrow> byte list \<Rightarrow> trap + BackendState" where
  "uploadChunk st sessionId chunkIndex data =
     (case uploadSessions st sessionId of
        None \<Rightarrow> Inl (Trap ''Upload session not found'')
      | Some session \<Rightarrow>
          Inr (st\<lparr>uploadSessions := (uploadSessions st)(sessionId \<mapsto>
                 session\<lparr>receivedChunks := (receivedChunks session)(chunkIndex \<mapsto> data)\<rparr>)\<rparr>))"

text \<open>The first loop of \<open>assembleChunks\<close>: collect the chunks by index, trapping on a
  missing one.\<close>

function collectChunks ::
  "UploadSession \<Rightarrow> nat \<Rightarrow> byte list list \<Rightarrow> trap + byte list list" where
  "collectChunks session chunkIndex resultList =
     (if chunkIndex < totalChunks session then
        (case receivedChunks session chunkIndex of
           None \<Rightarrow> Inl (Trap ''Missing chunk at index $chunkIndex'')
         | Some chunk \<Rightarrow> collectChunks session (chunkIndex + 1) (resultList @ [chunk]))
      else Inr resultList)"
  by pat_completeness auto
termination
  by (relation "measure (\<lambda>(session, chunkIndex, resultList). totalChunks session - chunkIndex)")
    auto

declare collectChunks.simps [simp del]

definition assembleChunks :: "UploadSession \<Rightarrow> trap + byte list" where
  "assembleChunks session =
     (case collectChunks session 0 [] of
        Inl t \<Rightarrow> Inl t
      | Inr resultList \<Rightarrow> Inr (fold (\<lambda>chunk result. result @ chunk) resultList []))"

definition applyEnhancement :: "byte list \<Rightarrow> EnhancementMode \<Rightarrow> byte list" where
  "applyEnhancement img mode = [] @ img"

text \<open>The checking loop of \<open>finalizeUpload\<close>: the first index below \<open>totalChunks\<close>
  with no chunk, if there is one.\<close>

function firstMissing :: "UploadSession \<Rightarrow> nat \<Rightarrow> nat option" where
  "firstMissing session chunkIndex =
     (if chunkIndex < totalChunks session then
        (if receivedChunks session chunkIndex = None then Some chunkIndex
         else firstMissing session (chunkIndex + 1))
      else None)"
  by pat_completeness auto
termination
  by (relation "measure (\<lambda>(session, chunkIndex). totalChunks session - chunkIndex)") auto

declare firstMissing.simps [simp del]

definition finalizeUpload ::
  "BackendState \<Rightarrow> string \<Rightarrow> EnhancementMode \<Rightarrow> trap + (FinalizeResult \<times> BackendState)" where
  "finalizeUpload st sessionId mode =
     (case uploadSessions st sessionId of
        None \<Rightarrow> Inr (\<lparr>ok = None, err = ''no upload session found''\<rparr>, st)
      | Some session \<Rightarrow>
          if card (dom (receivedChunks session)) \<noteq> totalChunks session then
            Inr (\<lparr>ok = None, err = ''all chunks not received yet''\<rparr>, st)
          else
            (case firstMissing session 0 of
               Some chunkIndex \<Rightarrow>
                 Inr (\<lparr>ok = None, err = ''missing chunk at index '' @ toText chunkIndex\<rparr>, st)
             | None \<Rightarrow>
                 (case assembleChunks session of
                    Inl t \<Rightarrow> Inl t
                  | Inr finalImage \<Rightarrow>
                      (let imageId = ''image-'' @ toText (nextImageId st);
                           enhancedImage =
                             (if finalImage \<noteq> [] then
                                (let processed = applyEnhancement finalImage mode
                                 in if processed \<noteq> [] then processed else finalImage)
                              else [])
                       in Inr (\<lparr>ok = Some (imageId, enhancedImage), err = ''''\<rparr>,
                               st\<lparr>nextImageId := nextImageId st + 1,
                                  images := (images st)(imageId \<mapsto> enhancedImage),
                                  uploadSessions := (uploadSessions st)(sessionId := None)\<rparr>)))))"

definition getImageRaw :: "BackendState \<Rightarrow> string \<Rightarrow> trap + byte list" where
  "getImageRaw st imageId =
     (case images st imageId of None \<Rightarrow> Inl (Trap ''Image not found'') | Some img \<Rightarrow> Inr img)"

text \<open>
  What holds of every state the three update calls reach from the empty one: every
  chunk map is finite, and every stored image id was made from a counter value below
  \<open>nextImageId\<close>.
\<close>

definition backend_ok :: "BackendState \<Rightarrow> bool" where
  "backend_ok st \<longleftrightarrow>
     (\<forall>sid s. uploadSessions st sid = Some s \<longrightarrow> finite (dom (receivedChunks s))) \<and>
     (\<forall>iid img. images st iid = Some img \<longrightarrow>
        (\<exists>k < nextImageId st. iid = ''image-'' @ toText k))"

section \<open>Pixel filters (utils/imageProcessing.ts)\<close>

text \<open>
  A bitmap is a width, a height and the RGBA bytes in row-major order, four per pixel.
  Both an \<open>ImageData\<close> object and the backing store of a canvas are bitmaps.  The
  platform only makes \<open>ImageData\<close> objects whose byte array has \<open>4 * width * height\<close>
  elements (\<open>wf_bitmap\<close>); on such objects every index the loops below read is in
  range.
\<close>

record Bitmap =
  width :: nat
  height :: nat
  data :: "byte list"

type_synonym ImageData = Bitmap

definition wf_bitmap :: "Bitmap \<Rightarrow> bool" where
  "wf_bitmap bm \<longleftrightarrow> length (data bm) = 4 * width bm * height bm"

text \<open>The byte of channel \<open>ch\<close> of the pixel in column \<open>x\<close> and row \<open>y\<close>.\<close>

definition byteAt :: "Bitmap \<Rightarrow> nat \<Rightarrow> nat \<Rightarrow> nat \<Rightarrow> byte" where
  "byteAt bm x y ch = data bm ! (4 * (y * width bm + x) + ch)"

text \<open>Reading an element of a \<open>Uint8ClampedArray\<close> as a number, and assigning an
  integral number to one (the array clamps what it stores to 0..255).\<close>

definition u8 :: "byte \<Rightarrow> real" where
  "u8 v = real (unat v)"

definition storeU8 :: "int \<Rightarrow> byte" where
  "storeU8 v = word_of_int (max 0 (min 255 v))"

definition clamp :: "real \<Rightarrow> int" where
  "clamp v = max 0 (min 255 (round v))"

text \<open>
  \<open>clamp(v / divisor)\<close>.  With a zero divisor JavaScript's quotient is \<open>+Infinity\<close>,
  \<open>-Infinity\<close> or \<open>NaN\<close>; \<open>clamp\<close> maps these to 255, 0 and \<open>NaN\<close>, and a \<open>NaN\<close>
  is stored as 0.
\<close>

definition clampQuot :: "real \<Rightarrow> real \<Rightarrow> int" where
  "clampQuot v divisor =
     (if divisor = 0 then (if 0 < v then 255 else 0) else clamp (v / divisor))"

definition rgbToHsl :: "real \<Rightarrow> real \<Rightarrow> real \<Rightarrow> real \<times> real \<times> real" where
  "rgbToHsl r0 g0 b0 =
     (let r = r0 / 255; g = g0 / 255; b = b0 / 255;
          mx = max r (max g b); mn = min r (min g b);
          l = (mx + mn) / 2
      in if mx \<noteq> mn then
           (let d = mx - mn;
                s = (if l > 0.5 then d / (2 - mx - mn) else d / (mx + mn));
                h = (if mx = r then ((g - b) / d + (if g < b then 6 else 0)) / 6
                     else if mx = g then ((b - r) / d + 2) / 6
                     else if mx = b then ((r - g) / d + 4) / 6
                     else 0)
            in (h, s, l))
         else (0, 0, l))"

definition hue2rgb :: "real \<Rightarrow> real \<Rightarrow> real \<Rightarrow> real" where
  "hue2rgb p q t0 =
     (let t1 = (if t0 < 0 then t0 + 1 else t0);
          t = (if t1 > 1 then t1 - 1 else t1)
      in if t < 1 / 6 then p + (q - p) * 6 * t
         else if t < 1 / 2 then q
         else if t < 2 / 3 then p + (q - p) * (2 / 3 - t) * 6
         else p)"

definition hslToRgb :: "real \<Rightarrow> real \<Rightarrow> real \<Rightarrow> int \<times> int \<times> int" where
  "hslToRgb h s l =
     (if s = 0 then (let v = round (l * 255) in (v, v, v))
      else
        (let q = (if l < 0.5 then l * (1 + s) else l + s - l * s);
             p = 2 * l - q
         in (round (hue2rgb p q (h + 1 / 3) * 255),
             round (hue2rgb p q h * 255),
             round (hue2rgb p q (h - 1 / 3) * 255))))"

text \<open>The values of \<open>i\<close> in \<open>for (let i = 0; i < n; i += 4)\<close>.\<close>

definition pixelStarts :: "nat \<Rightarrow> nat list" where
  "pixelStarts n = map (\<lambda>k. 4 * k) [0..<(n + 3) div 4]"

text \<open>The pairs \<open>(ky, kx)\<close> of the two kernel loops, in the order they run.\<close>

definition kernelOffsets :: "(int \<times> int) list" where
  "kernelOffsets =
     [(-1, -1), (-1, 0), (-1, 1), (0, -1), (0, 0), (0, 1), (1, -1), (1, 0), (1, 1)]"

text \<open>The body of the two kernel loops for the output pixel \<open>(x, y)\<close>: one
  neighbour added to the sums \<open>r\<close>, \<open>g\<close>, \<open>b\<close>.\<close>

definition kernelStep ::
  "ImageData \<Rightarrow> real list \<Rightarrow> nat \<Rightarrow> nat \<Rightarrow> int \<times> int \<Rightarrow> real \<times> real \<times> real
     \<Rightarrow> real \<times> real \<times> real" where
  "kernelStep imageData kern x y =
     (\<lambda>(ky, kx) (r, g, b).
        (let px = min (int (width imageData) - 1) (max 0 (int x + kx));
             py = min (int (height imageData) - 1) (max 0 (int y + ky));
             idx = nat ((py * int (width imageData) + px) * 4);
             kIdx = nat ((ky + 1) * 3 + (kx + 1))
         in (r + u8 (data imageData ! idx) * kern ! kIdx,
             g + u8 (data imageData ! (idx + 1)) * kern ! kIdx,
             b + u8 (data imageData ! (idx + 2)) * kern ! kIdx)))"

definition kernelSums ::
  "ImageData \<Rightarrow> real list \<Rightarrow> nat \<Rightarrow> nat \<Rightarrow> real \<times> real \<times> real" where
  "kernelSums imageData kern x y =
     fold (kernelStep imageData kern x y) kernelOffsets (0, 0, 0)"

definition convolvePixel ::
  "ImageData \<Rightarrow> real list \<Rightarrow> real \<Rightarrow> nat \<Rightarrow> nat \<Rightarrow> byte list \<Rightarrow> byte list" where
  "convolvePixel imageData kern divisor y x output =
     (case kernelSums imageData kern x y of
        (r, g, b) \<Rightarrow>
          (let outIdx = (y * width imageData + x) * 4
           in output[outIdx := storeU8 (clampQuot r divisor),
                     outIdx + 1 := storeU8 (clampQuot g divisor),
                     outIdx + 2 := storeU8 (clampQuot b divisor),
                     outIdx + 3 := data imageData ! (outIdx + 3)]))"

definition applyConvolution :: "ImageData \<Rightarrow> real list \<Rightarrow> real \<Rightarrow> ImageData" where
  "applyConvolution imageData kern divisor =
     \<lparr>width = width imageData, height = height imageData,
      data = fold (\<lambda>y. fold (convolvePixel imageData kern divisor y)
                           [0..<width imageData])
               [0..<height imageData]
               (replicate (length (data imageData)) 0)\<rparr>"

definition applySharpen :: "ImageData \<Rightarrow> real \<Rightarrow> ImageData" where
  "applySharpen imageData intensity =
     (if intensity \<le> 0 then imageData
      else
        (let t = intensity / 100;
             center = 1 + 8 * t;
             edge = - t;
             kernel = [edge, edge, edge, edge, center, edge, edge, edge, edge]
         in applyConvolution imageData kernel 1))"

definition applyNoiseReduction :: "ImageData \<Rightarrow> real \<Rightarrow> ImageData" where
  "applyNoiseReduction imageData intensity =
     (if intensity \<le> 0 then imageData
      else
        (let passes = round ((intensity / 100) * 2);
             blurKernel = [1, 1, 1, 1, 1, 1, 1, 1, 1]
         in fold (\<lambda>i result. applyConvolution result blurKernel 9)
              [0..<nat passes] imageData))"

text \<open>The bodies of the three per-pixel loops, for the pixel whose bytes start at
  index \<open>i\<close>.\<close>

definition brightnessPixel :: "byte list \<Rightarrow> real \<Rightarrow> nat \<Rightarrow> byte list \<Rightarrow> byte list" where
  "brightnessPixel d offset i output =
     output[i := storeU8 (clamp (u8 (d ! i) + offset)),
            i + 1 := storeU8 (clamp (u8 (d ! (i + 1)) + offset)),
            i + 2 := storeU8 (clamp (u8 (d ! (i + 2)) + offset)),
            i + 3 := d ! (i + 3)]"

definition contrastPixel :: "byte list \<Rightarrow> real \<Rightarrow> nat \<Rightarrow> byte list \<Rightarrow> byte list" where
  "contrastPixel d factor i output =
     output[i := storeU8 (clamp (factor * (u8 (d ! i) - 128) + 128)),
            i + 1 := storeU8 (clamp (factor * (u8 (d ! (i + 1)) - 128) + 128)),
            i + 2 := storeU8 (clamp (factor * (u8 (d ! (i + 2)) - 128) + 128)),
            i + 3 := d ! (i + 3)]"

definition saturationPixel :: "byte list \<Rightarrow> real \<Rightarrow> nat \<Rightarrow> byte list \<Rightarrow> byte list" where
  "saturationPixel d factor i output =
     (case rgbToHsl (u8 (d ! i)) (u8 (d ! (i + 1))) (u8 (d ! (i + 2))) of
        (h, s, l) \<Rightarrow>
          (let newS = min 1 (max 0 (s * factor))
           in case hslToRgb h newS l of
                (r, g, b) \<Rightarrow>
                  output[i := storeU8 r, i + 1 := storeU8 g,
                         i + 2 := storeU8 b, i + 3 := d ! (i + 3)]))"

definition applyBrightness :: "ImageData \<Rightarrow> real \<Rightarrow> ImageData" where
  "applyBrightness imageData brightness =
     (if brightness = 0 then imageData
      else
        (let d = data imageData;
             offset = (brightness / 100) * 128
         in \<lparr>width = width imageData, height = height imageData,
             data = fold (brightnessPixel d offset) (pixelStarts (length d))
                      (replicate (length d) 0)\<rparr>))"

definition applyContrast :: "ImageData \<Rightarrow> real \<Rightarrow> ImageData" where
  "applyContrast imageData contrast =
     (if contrast = 0 then imageData
      else
        (let d = data imageData;
             factor = (259 * (contrast + 255)) / (255 * (259 - contrast))
         in \<lparr>width = width imageData, height = height imageData,
             data = fold (contrastPixel d factor) (pixelStarts (length d))
                      (replicate (length d) 0)\<rparr>))"

definition applySaturation :: "ImageData \<Rightarrow> real \<Rightarrow> ImageData" where
  "applySaturation imageData saturation =
     (if saturation = 100 then imageData
      else
        (let d = data imageData;
             factor = saturation / 100
         in \<lparr>width = width imageData, height = height imageData,
             data = fold (saturationPixel d factor) (pixelStarts (length d))
                      (replicate (length d) 0)\<rparr>))"




section \<open>Enhancement controls (components/ImageEnhancementControls.tsx)\<close>

record EnhancementValues =
  brightness :: real
  contrast :: real
  saturation :: real
  sharpness :: real
  noiseReduction :: real
  rotation :: real

definition DEFAULT_ENHANCEMENT_VALUES :: EnhancementValues where
  "DEFAULT_ENHANCEMENT_VALUES =
     \<lparr>brightness = 0, contrast = 0, saturation = 100, sharpness = 0, noiseReduction = 0,
      rotation = 0\<rparr>"

text \<open>\<open>keyof EnhancementValues\<close>.\<close>

datatype EnhancementKey =
  K_brightness | K_contrast | K_saturation | K_sharpness | K_noiseReduction | K_rotation

text \<open>\<open>set(key)(v)\<close> hands \<open>{ ...values, [key]: v }\<close> to \<open>onChange\<close>; this is the
  record it hands over.\<close>

fun set_value :: "EnhancementKey \<Rightarrow> real \<Rightarrow> EnhancementValues \<Rightarrow> EnhancementValues" where
  "set_value K_brightness v vals = vals\<lparr>brightness := v\<rparr>"
| "set_value K_contrast v vals = vals\<lparr>contrast := v\<rparr>"
| "set_value K_saturation v vals = vals\<lparr>saturation := v\<rparr>"
| "set_value K_sharpness v vals = vals\<lparr>sharpness := v\<rparr>"
| "set_value K_noiseReduction v vals = vals\<lparr>noiseReduction := v\<rparr>"
| "set_value K_rotation v vals = vals\<lparr>rotation := v\<rparr>"

text \<open>The \<open>min\<close> and \<open>max\<close> each \<open>SliderRow\<close> is given.\<close>

fun sliderMin :: "EnhancementKey \<Rightarrow> real" where
  "sliderMin K_brightness = -100"
| "sliderMin K_contrast = -100"
| "sliderMin K_saturation = 0"
| "sliderMin K_sharpness = 0"
| "sliderMin K_noiseReduction = 0"
| "sliderMin K_rotation = -45"

fun sliderMax :: "EnhancementKey \<Rightarrow> real" where
  "sliderMax K_brightness = 100"
| "sliderMax K_contrast = 100"
| "sliderMax K_saturation = 200"
| "sliderMax K_sharpness = 100"
| "sliderMax K_noiseReduction = 100"
| "sliderMax K_rotation = 45"

text \<open>
  Modelled from the spec: the \<open>Slider\<close> component (\<open>components/ui/slider\<close>) is not among
  the sources.  The specification calls the controls a value-bounded surface on which
  each field is clamped to its range: the value a slider hands to \<open>onValueChange\<close> is
  the requested one clamped to the slider's \<open>min\<close> and \<open>max\<close>.
\<close>

definition Slider_onValueChange :: "real \<Rightarrow> real \<Rightarrow> real \<Rightarrow> real" where
  "Slider_onValueChange mn mx requested = max mn (min mx requested)"

text \<open>One change made through the control surface: the slider of \<open>key\<close> is moved
  towards \<open>requested\<close>, and \<open>set(key)\<close> receives what the slider emits.\<close>

definition sliderChange :: "EnhancementKey \<Rightarrow> real \<Rightarrow> EnhancementValues \<Rightarrow> EnhancementValues" where
  "sliderChange key requested vals =
     set_value key (Slider_onValueChange (sliderMin key) (sliderMax key) requested) vals"

definition values_in_range :: "EnhancementValues \<Rightarrow> bool" where
  "values_in_range vals \<longleftrightarrow>
     -100 \<le> brightness vals \<and> brightness vals \<le> 100 \<and>
     -100 \<le> contrast vals \<and> contrast vals \<le> 100 \<and>
     0 \<le> saturation vals \<and> saturation vals \<le> 200 \<and>
     0 \<le> sharpness vals \<and> sharpness vals \<le> 100 \<and>
     0 \<le> noiseReduction vals \<and> noiseReduction vals \<le> 100 \<and>
     -45 \<le> rotation vals \<and> rotation vals \<le> 45"

section \<open>The canvas\<close>

text \<open>
  A canvas element has a width, a height and a backing store of RGBA bytes: again a
  bitmap.  A new canvas is transparent black.  What \<open>drawImage\<close> is given is an image
  element (a decoded image) or another canvas.
\<close>

type_synonym Canvas = Bitmap

datatype ImageSource = ImageElement Bitmap | CanvasElement Canvas

fun sourceBitmap :: "ImageSource \<Rightarrow> Bitmap" where
  "sourceBitmap (ImageElement bm) = bm"
| "sourceBitmap (CanvasElement bm) = bm"

definition createCanvas :: "nat \<Rightarrow> nat \<Rightarrow> Canvas" where
  "createCanvas w h = \<lparr>width = w, height = h, data = replicate (4 * w * h) 0\<rparr>"

text \<open>
  The current transformation matrix of a 2D context: the point \<open>(x, y)\<close> of user space
  is the point \<open>(a x + c y + e, b x + d y + f)\<close> of the canvas.  \<open>translate\<close> and
  \<open>rotate\<close> multiply it from the right.
\<close>

record Transform =
  m_a :: real
  m_b :: real
  m_c :: real
  m_d :: real
  m_e :: real
  m_f :: real

definition identityTransform :: Transform where
  "identityTransform = \<lparr>m_a = 1, m_b = 0, m_c = 0, m_d = 1, m_e = 0, m_f = 0\<rparr>"

definition ctx_translate :: "Transform \<Rightarrow> real \<Rightarrow> real \<Rightarrow> Transform" where
  "ctx_translate m tx ty =
     m\<lparr>m_e := m_a m * tx + m_c m * ty + m_e m, m_f := m_b m * tx + m_d m * ty + m_f m\<rparr>"

definition ctx_rotate :: "Transform \<Rightarrow> real \<Rightarrow> Transform" where
  "ctx_rotate m angle =
     m\<lparr>m_a := m_a m * cos angle + m_c m * sin angle,
       m_b := m_b m * cos angle + m_d m * sin angle,
       m_c := m_c m * cos angle - m_a m * sin angle,
       m_d := m_d m * cos angle - m_b m * sin angle\<rparr>"

text \<open>
  Modelled from the spec: the rasteriser behind \<open>drawImage\<close> is the browser's and is not
  among the sources.  The specification describes its results as an exact remapping of
  the pixel grid (a crop extracts the sub-rectangle, a quarter turn permutes the pixels,
  pixels outside the original image stay transparent).  Accordingly a canvas pixel
  takes the value of the source pixel that the centre of the canvas pixel falls into,
  when the drawn rectangle is mapped back through the transformation; a canvas pixel
  whose centre falls outside keeps its value.  \<open>sourcePixel\<close> gives the index of that
  source pixel.  The smoothing a browser applies when a transformation does not map
  the grid onto itself is not modelled, and every canvas drawn onto below is new, so
  that compositing over it stores the source pixel.
\<close>

definition sourcePixel ::
  "Transform \<Rightarrow> Bitmap \<Rightarrow> real \<Rightarrow> real \<Rightarrow> real \<Rightarrow> real \<Rightarrow> real \<Rightarrow> real \<Rightarrow> real \<Rightarrow> real
     \<Rightarrow> nat \<Rightarrow> nat \<Rightarrow> nat option" where
  "sourcePixel m img sx sy sw sh dx dy dw dh i j =
     (let det = m_a m * m_d m - m_b m * m_c m
      in if det = 0 then None
         else
           (let X = real i + 1 / 2 - m_e m;
                Y = real j + 1 / 2 - m_f m;
                u = (m_d m * X - m_c m * Y) / det;
                v = (m_a m * Y - m_b m * X) / det
            in if dx \<le> u \<and> u < dx + dw \<and> dy \<le> v \<and> v < dy + dh then
                 (let px = \<lfloor>sx + (u - dx) * sw / dw\<rfloor>;
                      py = \<lfloor>sy + (v - dy) * sh / dh\<rfloor>
                  in if 0 \<le> px \<and> px < int (width img) \<and> 0 \<le> py \<and> py < int (height img)
                     then Some (nat py * width img + nat px)
                     else None)
               else None))"

definition paint ::
  "Canvas \<Rightarrow> Transform \<Rightarrow> Bitmap \<Rightarrow> real \<Rightarrow> real \<Rightarrow> real \<Rightarrow> real \<Rightarrow> real \<Rightarrow> real \<Rightarrow> real \<Rightarrow> real
     \<Rightarrow> Canvas" where
  "paint dest m img sx sy sw sh dx dy dw dh =
     dest\<lparr>data :=
       map (\<lambda>k. case sourcePixel m img sx sy sw sh dx dy dw dh
                        ((k div 4) mod width dest) ((k div 4) div width dest) of
                   Some q \<Rightarrow> data img ! (4 * q + k mod 4)
                 | None \<Rightarrow> data dest ! k)
         [0..<length (data dest)]\<rparr>"

text \<open>
  \<open>drawImage(image, sx, sy, sw, sh, dx, dy, dw, dh)\<close> on the context of \<open>dest\<close> with
  the transformation \<open>m\<close>.  A canvas with no pixels as the image throws; an image
  element with no pixels, or an empty source rectangle, paints nothing.
\<close>

definition drawImage ::
  "Canvas \<Rightarrow> Transform \<Rightarrow> ImageSource \<Rightarrow> real \<Rightarrow> real \<Rightarrow> real \<Rightarrow> real \<Rightarrow> real \<Rightarrow> real
     \<Rightarrow> real \<Rightarrow> real \<Rightarrow> js_error + Canvas" where
  "drawImage dest m src sx sy sw sh dx dy dw dh =
     (case src of
        CanvasElement c \<Rightarrow>
          if width c = 0 \<or> height c = 0 then Inl InvalidStateError
          else if sw = 0 \<or> sh = 0 then Inr dest
          else Inr (paint dest m c sx sy sw sh dx dy dw dh)
      | ImageElement bm \<Rightarrow>
          if width bm = 0 \<or> height bm = 0 then Inr dest
          else if sw = 0 \<or> sh = 0 then Inr dest
          else Inr (paint dest m bm sx sy sw sh dx dy dw dh))"

text \<open>The shorter forms: \<open>drawImage(image, dx, dy)\<close> and
  \<open>drawImage(image, dx, dy, dw, dh)\<close> draw the whole image.\<close>

definition drawImage3 ::
  "Canvas \<Rightarrow> Transform \<Rightarrow> ImageSource \<Rightarrow> real \<Rightarrow> real \<Rightarrow> js_error + Canvas" where
  "drawImage3 dest m src dx dy =
     drawImage dest m src 0 0 (real (width (sourceBitmap src))) (real (height (sourceBitmap src)))
       dx dy (real (width (sourceBitmap src))) (real (height (sourceBitmap src)))"

definition drawImage5 ::
  "Canvas \<Rightarrow> Transform \<Rightarrow> ImageSource \<Rightarrow> real \<Rightarrow> real \<Rightarrow> real \<Rightarrow> real
     \<Rightarrow> js_error + Canvas" where
  "drawImage5 dest m src dx dy dw dh =
     drawImage dest m src 0 0 (real (width (sourceBitmap src))) (real (height (sourceBitmap src)))
       dx dy dw dh"



section \<open>Upscaling, the compositor and the committing operations\<close>

text \<open>
  \<open>upscaleImage\<close>.  Decoding the source is the browser's work: \<open>loadImage\<close> is a
  parameter that gives the decoded image, or nothing when the load fails (the promise
  is then rejected).
\<close>

definition upscaleImage :: "(string \<Rightarrow> Bitmap option) \<Rightarrow> string \<Rightarrow> js_error + Canvas" where
  "upscaleImage loadImage src =
     (case loadImage src of
        None \<Rightarrow> Inl LoadError
      | Some img \<Rightarrow>
          (let targetW = width img * 2;
               targetH = height img * 2;
               step1 = createCanvas (nat (round (real (width img) * 1.5)))
                                    (nat (round (real (height img) * 1.5)))
           in case drawImage5 step1 identityTransform (ImageElement img) 0 0
                     (real (width step1)) (real (height step1)) of
                Inl er \<Rightarrow> Inl er
              | Inr step1' \<Rightarrow>
                  (let step2 = createCanvas targetW targetH
                   in drawImage5 step2 identityTransform (CanvasElement step1') 0 0
                        (real targetW) (real targetH))))"

definition rotate90 :: "Canvas \<Rightarrow> bool \<Rightarrow> js_error + Canvas" where
  "rotate90 canvas clockwise =
     (let out = createCanvas (height canvas) (width canvas);
          m = (if clockwise
               then ctx_rotate (ctx_translate identityTransform (real (width out)) 0) (pi / 2)
               else ctx_rotate (ctx_translate identityTransform 0 (real (height out)))
                      (- pi / 2))
      in drawImage3 out m (CanvasElement canvas) 0 0)"







text \<open>
  The component state that the committing handlers of \<open>ImageComparison\<close> touch: the
  base canvas (\<open>baseCanvasRef.current\<close>, \<open>null\<close> before an image has arrived), the
  crop selection, the pending crop and the control values.
\<close>

record EditorState =
  baseCanvas :: "Canvas option"
  crop :: CropSelectionState
  appliedCrop :: "CropRect option"
  enhancementValues :: EnhancementValues

definition handleRotate90 :: "EditorState \<Rightarrow> bool \<Rightarrow> js_error + EditorState" where
  "handleRotate90 st clockwise =
     (case baseCanvas st of
        None \<Rightarrow> Inr st
      | Some base \<Rightarrow>
          (case rotate90 base clockwise of
             Inl er \<Rightarrow> Inl er
           | Inr rotated \<Rightarrow> Inr (st\<lparr>baseCanvas := Some rotated, appliedCrop := None\<rparr>)))"


text \<open>
  The quarter turn as the specification words it, for comparison with \<open>rotate90\<close>:
  the dimensions are swapped and the pixels are remapped by index, with no
  interpolation.  Clockwise, the pixel in column \<open>i\<close> and row \<open>j\<close> of the result is the
  pixel in column \<open>j\<close> of row \<open>height - 1 - i\<close> of the original; counter-clockwise it is
  the pixel in column \<open>width - 1 - j\<close> of row \<open>i\<close>.
\<close>

definition spec_Rotate90 :: "Bitmap \<Rightarrow> bool \<Rightarrow> Bitmap" where
  "spec_Rotate90 bm clockwise =
     \<lparr>width = height bm, height = width bm,
      data = map (\<lambda>k. let i = (k div 4) mod height bm; j = (k div 4) div height bm
                      in data bm ! (4 * (if clockwise
                                          then (height bm - 1 - i) * width bm + j
                                          else i * width bm + (width bm - 1 - j))
                                    + k mod 4))
               [0..<4 * height bm * width bm]\<rparr>"




section \<open>Properties of the crop selection\<close>




text \<open>
  Claim C2, as the code has it.  \<open>confirmCrop\<close> returns \<open>null\<close> and leaves the whole
  state as it is when there is no rectangle or the rectangle is narrower or lower than
  4 native pixels.  Otherwise it returns the rectangle, sets \<open>isActive\<close> and
  \<open>isDragging\<close> to false and clears the drag anchor; the \<open>rect\<close> cell is not
  written, so the state still holds the returned rectangle.
\<close>

theorem confirmCrop_rejects_small_keeps_rect:
  "(rect s = None \<longrightarrow> confirmCrop s = (None, s)) \<and>
   (\<forall>r. rect s = Some r \<longrightarrow>
      (rect_w r < 4 \<or> rect_h r < 4 \<longrightarrow> confirmCrop s = (None, s)) \<and>
      (4 \<le> rect_w r \<and> 4 \<le> rect_h r \<longrightarrow>
         confirmCrop s = (Some r, s\<lparr>isActive := False, isDragging := False, startRef := None\<rparr>)
         \<and> \<not> isActive (snd (confirmCrop s)) \<and> \<not> isDragging (snd (confirmCrop s))
         \<and> rect (snd (confirmCrop s)) = Some r))"
  by (auto simp: confirmCrop_def)

theorem confirmCrop_rejects_small_keeps_rect_witness:
  "confirmCrop \<lparr>isActive = True, rect = None, isDragging = False, startRef = None\<rparr>
     = (None, \<lparr>isActive = True, rect = None, isDragging = False, startRef = None\<rparr>) \<and>
   confirmCrop \<lparr>isActive = True,
                rect = Some \<lparr>rect_x = 4, rect_y = 4, rect_w = 3, rect_h = 16\<rparr>,
                isDragging = False, startRef = Some (10, 10)\<rparr>
     = (None, \<lparr>isActive = True,
                rect = Some \<lparr>rect_x = 4, rect_y = 4, rect_w = 3, rect_h = 16\<rparr>,
                isDragging = False, startRef = Some (10, 10)\<rparr>) \<and>
   confirmCrop \<lparr>isActive = True,
                rect = Some \<lparr>rect_x = 4, rect_y = 4, rect_w = 16, rect_h = 16\<rparr>,
                isDragging = False, startRef = Some (10, 10)\<rparr>
     = (Some \<lparr>rect_x = 4, rect_y = 4, rect_w = 16, rect_h = 16\<rparr>,
        \<lparr>isActive = False,
         rect = Some \<lparr>rect_x = 4, rect_y = 4, rect_w = 16, rect_h = 16\<rparr>,
         isDragging = False, startRef = None\<rparr>)"
  using
    confirmCrop_rejects_small_keeps_rect
      [of "\<lparr>isActive = True, rect = None, isDragging = False, startRef = None\<rparr>"]
    confirmCrop_rejects_small_keeps_rect
      [of "\<lparr>isActive = True,
            rect = Some \<lparr>rect_x = 4, rect_y = 4, rect_w = 3, rect_h = 16\<rparr>,
            isDragging = False, startRef = Some (10, 10)\<rparr>"]
    confirmCrop_rejects_small_keeps_rect
      [of "\<lparr>isActive = True,
            rect = Some \<lparr>rect_x = 4, rect_y = 4, rect_w = 16, rect_h = 16\<rparr>,
            isDragging = False, startRef = Some (10, 10)\<rparr>"]
  by simp

text \<open>
  The claim as written (the accepted rectangle is cleared from the state) fails: after
  a 16 by 16 selection is confirmed the state still holds it.
\<close>

theorem confirmCrop_rect_not_cleared:
  "fst (confirmCrop \<lparr>isActive = True,
                     rect = Some \<lparr>rect_x = 4, rect_y = 4, rect_w = 16, rect_h = 16\<rparr>,
                     isDragging = False, startRef = Some (10, 10)\<rparr>)
     = Some \<lparr>rect_x = 4, rect_y = 4, rect_w = 16, rect_h = 16\<rparr> \<and>
   rect (snd (confirmCrop \<lparr>isActive = True,
                     rect = Some \<lparr>rect_x = 4, rect_y = 4, rect_w = 16, rect_h = 16\<rparr>,
                     isDragging = False, startRef = Some (10, 10)\<rparr>)) \<noteq> None"
  by (simp add: confirmCrop_def)



section \<open>Properties of the upload sessions\<close>

lemma digitChar_inj:
  assumes "a < 10" and "b < 10" and "digitChar a = digitChar b"
  shows "a = b"
proof -
  have A: "a \<in> {0, 1, 2, 3, 4, 5, 6, 7, 8, 9}" using assms(1) by auto
  have B: "b \<in> {0, 1, 2, 3, 4, 5, 6, 7, 8, 9}" using assms(2) by auto
  show ?thesis using A B assms(3) by (auto simp: digitChar_def)
qed

lemma toText_small: "n < 10 \<Longrightarrow> toText n = [digitChar n]"
  by (subst toText.simps) simp

lemma toText_large: "\<not> n < 10 \<Longrightarrow> toText n = toText (n div 10) @ [digitChar (n mod 10)]"
  by (subst toText.simps) simp

lemma toText_nonempty: "toText n \<noteq> []"
  by (subst toText.simps) simp

text \<open>Two counter values never print the same, so ids made from them differ.\<close>

lemma toText_inj: "toText m = toText n \<Longrightarrow> m = n"
proof (induction m arbitrary: n rule: toText.induct)
  case (1 m)
  show ?case
  proof (cases "m < 10")
    case True
    note msmall = this
    show ?thesis
    proof (cases "n < 10")
      case True
      with msmall 1(2) show ?thesis
        using digitChar_inj by (auto simp: toText_small)
    next
      case False
      with msmall 1(2) toText_nonempty [of "n div 10"] show ?thesis
        by (cases "toText (n div 10)") (auto simp: toText_small toText_large)
    qed
  next
    case False
    note mlarge = this
    show ?thesis
    proof (cases "n < 10")
      case True
      with mlarge 1(2) toText_nonempty [of "m div 10"] show ?thesis
        by (cases "toText (m div 10)") (auto simp: toText_small toText_large)
    next
      case False
      with mlarge 1(2) have "toText (m div 10) = toText (n div 10)"
        and "digitChar (m mod 10) = digitChar (n mod 10)"
        by (auto simp: toText_large)
      then have "m div 10 = n div 10" and "m mod 10 = n mod 10"
        using 1(1) [OF mlarge] digitChar_inj [of "m mod 10" "n mod 10"] by auto
      then show ?thesis by (metis div_mult_mod_eq)
    qed
  qed
qed

lemma firstMissing_None:
  "firstMissing session i = None \<longleftrightarrow>
     (\<forall>j. i \<le> j \<and> j < totalChunks session \<longrightarrow> receivedChunks session j \<noteq> None)"
proof (induction session i rule: firstMissing.induct)
  case (1 session i)
  show ?case
  proof (cases "i < totalChunks session")
    case False
    then show ?thesis by (subst firstMissing.simps) auto
  next
    case True
    note lt = this
    show ?thesis
    proof (cases "receivedChunks session i = None")
      case True
      with lt show ?thesis by (subst firstMissing.simps) auto
    next
      case False
      have "firstMissing session i = firstMissing session (i + 1)"
        using lt False by (subst firstMissing.simps) auto
      also have "\<dots> = None \<longleftrightarrow>
          (\<forall>j. i + 1 \<le> j \<and> j < totalChunks session \<longrightarrow> receivedChunks session j \<noteq> None)"
        using 1 [OF lt False] .
      also have "\<dots> \<longleftrightarrow>
          (\<forall>j. i \<le> j \<and> j < totalChunks session \<longrightarrow> receivedChunks session j \<noteq> None)"
        using False by (metis Suc_eq_plus1 Suc_leI le_neq_implies_less le_SucI order_refl
            Suc_le_lessD less_imp_le_nat)
      finally show ?thesis .
    qed
  qed
qed

lemma collectChunks_all_present:
  assumes "\<forall>j. i \<le> j \<and> j < totalChunks session \<longrightarrow> receivedChunks session j \<noteq> None"
  shows "collectChunks session i acc =
           Inr (acc @ map (\<lambda>j. the (receivedChunks session j)) [i..<totalChunks session])"
  using assms
proof (induction session i acc rule: collectChunks.induct)
  case (1 session i acc)
  show ?case
  proof (cases "i < totalChunks session")
    case False
    then show ?thesis by (subst collectChunks.simps) simp
  next
    case True
    then obtain chunk where c: "receivedChunks session i = Some chunk"
      using 1(2) by auto
    have "collectChunks session i acc = collectChunks session (i + 1) (acc @ [chunk])"
      using True c by (subst collectChunks.simps) simp
    also have "\<dots> = Inr ((acc @ [chunk]) @
        map (\<lambda>j. the (receivedChunks session j)) [i + 1..<totalChunks session])"
      using 1(1) [OF True c] 1(2) by simp
    also have "\<dots> = Inr (acc @
        map (\<lambda>j. the (receivedChunks session j)) [i..<totalChunks session])"
      using True c by (simp add: upt_conv_Cons)
    finally show ?thesis .
  qed
qed

lemma fold_append_concat: "fold (\<lambda>chunk result. result @ chunk) xs acc = acc @ concat xs"
  by (induction xs arbitrary: acc) auto

lemma assembleChunks_all_present:
  assumes "\<forall>j < totalChunks session. receivedChunks session j \<noteq> None"
  shows "assembleChunks session =
           Inr (concat (map (\<lambda>j. the (receivedChunks session j)) [0..<totalChunks session]))"
  using assms by (simp add: assembleChunks_def collectChunks_all_present fold_append_concat)

text \<open>With a finite chunk map, both checks of \<open>finalizeUpload\<close> pass exactly when the
  received indices are the indices below \<open>totalChunks\<close>, no more and no fewer.\<close>

lemma checks_pass_iff:
  assumes "finite (dom (receivedChunks session))"
  shows "card (dom (receivedChunks session)) = totalChunks session \<and>
         firstMissing session 0 = None \<longleftrightarrow>
         dom (receivedChunks session) = {0..<totalChunks session}"
proof
  assume a: "card (dom (receivedChunks session)) = totalChunks session \<and>
             firstMissing session 0 = None"
  then have "{0..<totalChunks session} \<subseteq> dom (receivedChunks session)"
    by (auto simp: firstMissing_None)
  moreover have "card {0..<totalChunks session} = card (dom (receivedChunks session))"
    using a by simp
  ultimately show "dom (receivedChunks session) = {0..<totalChunks session}"
    using assms by (metis card_subset_eq)
next
  assume "dom (receivedChunks session) = {0..<totalChunks session}"
  then show "card (dom (receivedChunks session)) = totalChunks session \<and>
             firstMissing session 0 = None"
    by (auto simp: firstMissing_None)
qed

lemma backend_ok_initial: "backend_ok initialBackend"
  by (simp add: backend_ok_def initialBackend_def)

lemma backend_ok_initUpload: "backend_ok st \<Longrightarrow> backend_ok (snd (initUpload st n ft))"
  by (auto simp: backend_ok_def initUpload_def Let_def less_Suc_eq split: if_splits)

lemma backend_ok_uploadChunk:
  "backend_ok st \<Longrightarrow> uploadChunk st sid i d = Inr st' \<Longrightarrow> backend_ok st'"
  by (auto simp: backend_ok_def uploadChunk_def split: option.splits if_splits)

lemma backend_ok_finalizeUpload:
  assumes "backend_ok st" and "finalizeUpload st sid mode = Inr (res, st')"
  shows "backend_ok st'"
proof -
  have "st' = st \<or>
        (\<exists>b. st' = st\<lparr>nextImageId := nextImageId st + 1,
                 images := (images st)(''image-'' @ toText (nextImageId st) \<mapsto> b),
                 uploadSessions := (uploadSessions st)(sid := None)\<rparr>)"
    using assms(2)
    by (auto simp: finalizeUpload_def Let_def split: option.splits if_splits sum.splits)
  then show ?thesis
  proof
    assume "st' = st"
    with assms(1) show ?thesis by simp
  next
    assume "\<exists>b. st' = st\<lparr>nextImageId := nextImageId st + 1,
                 images := (images st)(''image-'' @ toText (nextImageId st) \<mapsto> b),
                 uploadSessions := (uploadSessions st)(sid := None)\<rparr>"
    then obtain b where "st' = st\<lparr>nextImageId := nextImageId st + 1,
                 images := (images st)(''image-'' @ toText (nextImageId st) \<mapsto> b),
                 uploadSessions := (uploadSessions st)(sid := None)\<rparr>" ..
    with assms(1) show ?thesis
      by (auto simp: backend_ok_def less_Suc_eq split: if_splits)
  qed
qed

lemma fresh_image_id:
  assumes "backend_ok st"
  shows "''image-'' @ toText (nextImageId st) \<notin> dom (images st)"
proof
  assume "''image-'' @ toText (nextImageId st) \<in> dom (images st)"
  then obtain k where "k < nextImageId st"
    and "''image-'' @ toText (nextImageId st) = ''image-'' @ toText k"
    using assms unfolding backend_ok_def by (auto simp: dom_def)
  then show False using toText_inj [of "nextImageId st" k] by simp
qed

text \<open>
  Claim C9, as the code has it.  \<open>finalizeUpload\<close> answers with an error text and no
  \<open>ok\<close> value, and leaves the whole state (the stored images with it) as it is, when
  the session does not exist or the received chunk indices are not exactly the indices
  below \<open>totalChunks\<close>: one missing, or one too many.  When they are exactly those, it
  answers with the chunks concatenated in increasing index order (the enhancement step
  passes the bytes through), stores them under the id made from the counter, which no
  stored image has, and removes the session.
\<close>

theorem finalizeUpload_exact_indices:
  "(uploadSessions st sid = None \<longrightarrow>
      finalizeUpload st sid mode = Inr (\<lparr>ok = None, err = ''no upload session found''\<rparr>, st)) \<and>
   (\<forall>session. backend_ok st \<and> uploadSessions st sid = Some session \<longrightarrow>
      (dom (receivedChunks session) \<noteq> {0..<totalChunks session} \<longrightarrow>
         (\<exists>e. e \<noteq> [] \<and> finalizeUpload st sid mode = Inr (\<lparr>ok = None, err = e\<rparr>, st))) \<and>
      (dom (receivedChunks session) = {0..<totalChunks session} \<longrightarrow>
         finalizeUpload st sid mode =
           Inr (\<lparr>ok = Some (''image-'' @ toText (nextImageId st),
                    concat (map (\<lambda>j. the (receivedChunks session j))
                      [0..<totalChunks session])),
                 err = ''''\<rparr>,
                st\<lparr>nextImageId := nextImageId st + 1,
                   images := (images st)(''image-'' @ toText (nextImageId st) \<mapsto>
                     concat (map (\<lambda>j. the (receivedChunks session j))
                       [0..<totalChunks session])),
                   uploadSessions := (uploadSessions st)(sid := None)\<rparr>) \<and>
         ''image-'' @ toText (nextImageId st) \<notin> dom (images st)))"
proof -
  have none: "finalizeUpload st sid mode =
      Inr (\<lparr>ok = None, err = ''no upload session found''\<rparr>, st)"
    if "uploadSessions st sid = None"
    using that by (simp add: finalizeUpload_def)
  have bad: "\<exists>e. e \<noteq> [] \<and> finalizeUpload st sid mode = Inr (\<lparr>ok = None, err = e\<rparr>, st)"
    if inv: "backend_ok st" and s: "uploadSessions st sid = Some session"
      and d: "dom (receivedChunks session) \<noteq> {0..<totalChunks session}" for session
  proof -
    have fin: "finite (dom (receivedChunks session))"
      using inv s unfolding backend_ok_def by blast
    show ?thesis
    proof (cases "card (dom (receivedChunks session)) = totalChunks session")
      case False
      with s show ?thesis by (simp add: finalizeUpload_def)
    next
      case True
      with d checks_pass_iff [OF fin] obtain k where "firstMissing session 0 = Some k"
        by auto
      with s True show ?thesis by (simp add: finalizeUpload_def)
    qed
  qed
  have good: "finalizeUpload st sid mode =
           Inr (\<lparr>ok = Some (''image-'' @ toText (nextImageId st),
                    concat (map (\<lambda>j. the (receivedChunks session j))
                      [0..<totalChunks session])),
                 err = ''''\<rparr>,
                st\<lparr>nextImageId := nextImageId st + 1,
                   images := (images st)(''image-'' @ toText (nextImageId st) \<mapsto>
                     concat (map (\<lambda>j. the (receivedChunks session j))
                       [0..<totalChunks session])),
                   uploadSessions := (uploadSessions st)(sid := None)\<rparr>)"
    if inv: "backend_ok st" and s: "uploadSessions st sid = Some session"
      and d: "dom (receivedChunks session) = {0..<totalChunks session}" for session
  proof -
    have fin: "finite (dom (receivedChunks session))"
      using inv s unfolding backend_ok_def by blast
    have c: "card (dom (receivedChunks session)) = totalChunks session"
      and f: "firstMissing session 0 = None"
      using checks_pass_iff [OF fin] d by auto
    have "\<forall>j < totalChunks session. receivedChunks session j \<noteq> None"
      using f by (simp add: firstMissing_None)
    then have a: "assembleChunks session =
        Inr (concat (map (\<lambda>j. the (receivedChunks session j)) [0..<totalChunks session]))"
      by (rule assembleChunks_all_present)
    define bytes where
      "bytes = concat (map (\<lambda>j. the (receivedChunks session j)) [0..<totalChunks session])"
    have a': "assembleChunks session = Inr bytes"
      using a by (simp add: bytes_def)
    have "finalizeUpload st sid mode =
           Inr (\<lparr>ok = Some (''image-'' @ toText (nextImageId st), bytes), err = ''''\<rparr>,
                st\<lparr>nextImageId := nextImageId st + 1,
                   images := (images st)(''image-'' @ toText (nextImageId st) \<mapsto> bytes),
                   uploadSessions := (uploadSessions st)(sid := None)\<rparr>)"
      using s c f a'
      by (cases "bytes = []") (simp_all add: finalizeUpload_def Let_def applyEnhancement_def)
    then show ?thesis by (simp add: bytes_def)
  qed
  show ?thesis
    using none bad good fresh_image_id [of st] by blast
qed


theorem finalizeUpload_exact_indices_witness:
  "finalizeUpload initialBackend ''Session-7'' standard =
     Inr (\<lparr>ok = None, err = ''no upload session found''\<rparr>, initialBackend) \<and>
   backend_ok \<lparr>images = Map.empty,
               uploadSessions = [''Session-0'' \<mapsto>
                 \<lparr>totalChunks = 2, receivedChunks = [0 \<mapsto> [1, 2]],
                  fileType = ''image/png''\<rparr>],
               nextImageId = 1\<rparr> \<and>
   (\<exists>e. e \<noteq> [] \<and>
     finalizeUpload \<lparr>images = Map.empty,
                     uploadSessions = [''Session-0'' \<mapsto>
                       \<lparr>totalChunks = 2, receivedChunks = [0 \<mapsto> [1, 2]],
                        fileType = ''image/png''\<rparr>],
                     nextImageId = 1\<rparr> ''Session-0'' standard =
       Inr (\<lparr>ok = None, err = e\<rparr>,
            \<lparr>images = Map.empty,
             uploadSessions = [''Session-0'' \<mapsto>
               \<lparr>totalChunks = 2, receivedChunks = [0 \<mapsto> [1, 2]],
                fileType = ''image/png''\<rparr>],
             nextImageId = 1\<rparr>)) \<and>
   backend_ok \<lparr>images = Map.empty,
               uploadSessions = [''Session-0'' \<mapsto>
                 \<lparr>totalChunks = 2, receivedChunks = [0 \<mapsto> [1, 2], 1 \<mapsto> [3]],
                  fileType = ''image/png''\<rparr>],
               nextImageId = 1\<rparr> \<and>
   finalizeUpload \<lparr>images = Map.empty,
                   uploadSessions = [''Session-0'' \<mapsto>
                     \<lparr>totalChunks = 2, receivedChunks = [0 \<mapsto> [1, 2], 1 \<mapsto> [3]],
                      fileType = ''image/png''\<rparr>],
                   nextImageId = 1\<rparr> ''Session-0'' anime =
     Inr (\<lparr>ok = Some (''image-1'', [1, 2, 3]), err = ''''\<rparr>,
          \<lparr>images = [''image-1'' \<mapsto> [1, 2, 3]], uploadSessions = Map.empty,
           nextImageId = 2\<rparr>)"
proof -
  let ?c1 = "\<lparr>totalChunks = 2, receivedChunks = [0 \<mapsto> [1, 2 :: byte]],
              fileType = ''image/png''\<rparr>"
  let ?c2 = "\<lparr>totalChunks = 2, receivedChunks = [0 \<mapsto> [1, 2 :: byte], 1 \<mapsto> [3]],
              fileType = ''image/png''\<rparr>"
  let ?s1 = "\<lparr>images = Map.empty, uploadSessions = [''Session-0'' \<mapsto> ?c1],
              nextImageId = 1\<rparr>"
  let ?s2 = "\<lparr>images = Map.empty, uploadSessions = [''Session-0'' \<mapsto> ?c2],
              nextImageId = 1\<rparr>"
  have ok1: "backend_ok ?s1" and ok2: "backend_ok ?s2"
    by (simp_all add: backend_ok_def)
  have l1: "uploadSessions ?s1 ''Session-0'' = Some ?c1"
    and l2: "uploadSessions ?s2 ''Session-0'' = Some ?c2"
    by simp_all
  have d1: "dom (receivedChunks ?c1) \<noteq> {0..<totalChunks ?c1}"
  proof -
    have "(1::nat) \<in> {0..<2}" by simp
    moreover have "(1::nat) \<notin> dom [0 \<mapsto> [1, 2 :: byte]]" by simp
    ultimately have "dom [(0::nat) \<mapsto> [1, 2 :: byte]] \<noteq> {0..<2}" by metis
    then show ?thesis by simp
  qed
  have d2: "dom (receivedChunks ?c2) = {0..<totalChunks ?c2}"
  proof -
    have "{0..<2::nat} = {0, 1}"
      by (simp add: numeral_2_eq_2 atLeast0_lessThan_Suc insert_commute)
    then show ?thesis by (simp add: insert_commute)
  qed
  have u: "[0..<2] = [0, 1]"
    by (simp add: numeral_2_eq_2)
  have a: "finalizeUpload initialBackend ''Session-7'' standard =
     Inr (\<lparr>ok = None, err = ''no upload session found''\<rparr>, initialBackend)"
    by (rule finalizeUpload_exact_indices [of initialBackend "''Session-7''" standard,
          THEN conjunct1, THEN mp]) (simp add: initialBackend_def)
  note sess = finalizeUpload_exact_indices [THEN conjunct2, THEN spec, THEN mp, OF conjI]
  have b: "\<exists>e. e \<noteq> [] \<and> finalizeUpload ?s1 ''Session-0'' standard =
      Inr (\<lparr>ok = None, err = e\<rparr>, ?s1)"
    by (rule sess [OF ok1 l1, THEN conjunct1, THEN mp, OF d1])
  have "finalizeUpload ?s2 ''Session-0'' anime =
     Inr (\<lparr>ok = Some (''image-'' @ toText (nextImageId ?s2),
              concat (map (\<lambda>j. the (receivedChunks ?c2 j)) [0..<totalChunks ?c2])),
           err = ''''\<rparr>,
          ?s2\<lparr>nextImageId := nextImageId ?s2 + 1,
              images := (images ?s2)(''image-'' @ toText (nextImageId ?s2) \<mapsto>
                concat (map (\<lambda>j. the (receivedChunks ?c2 j)) [0..<totalChunks ?c2])),
              uploadSessions := (uploadSessions ?s2)(''Session-0'' := None)\<rparr>)"
    by (rule sess [OF ok2 l2, THEN conjunct2, THEN mp, OF d2, THEN conjunct1])
  then have c: "finalizeUpload ?s2 ''Session-0'' anime =
     Inr (\<lparr>ok = Some (''image-1'', [1, 2, 3]), err = ''''\<rparr>,
          \<lparr>images = [''image-1'' \<mapsto> [1, 2, 3]], uploadSessions = Map.empty,
           nextImageId = 2\<rparr>)"
    by (simp add: u toText_small digitChar_def)
  from a ok1 b ok2 c show ?thesis
    by (intro conjI)
qed

text \<open>
  The claim as written promises the bytes whenever every index below \<open>totalChunks\<close>
  has been received.  A session that expects one chunk and has received chunk 0 and a
  chunk 5 is refused.  The public calls reach this state from the empty one.
\<close>

lemma extra_chunk_state_reachable:
  "(case initUpload initialBackend 1 ''image/png'' of
      (sid, s1) \<Rightarrow>
        (case uploadChunk s1 sid 0 [1] of
           Inl t \<Rightarrow> False
         | Inr s2 \<Rightarrow> uploadChunk s2 sid 5 [2] =
             Inr \<lparr>images = Map.empty,
                  uploadSessions = [''Session-0'' \<mapsto>
                    \<lparr>totalChunks = 1, receivedChunks = [0 \<mapsto> [1], 5 \<mapsto> [2]],
                     fileType = ''image/png''\<rparr>],
                  nextImageId = 1\<rparr>))"
  by (simp add: initUpload_def initialBackend_def uploadChunk_def toText_small digitChar_def
      Let_def)

theorem finalizeUpload_refuses_extra_chunk:
  "receivedChunks \<lparr>totalChunks = 1, receivedChunks = [0 \<mapsto> [1], 5 \<mapsto> [2]],
                   fileType = ''image/png''\<rparr> 0 \<noteq> None \<and>
   finalizeUpload \<lparr>images = Map.empty,
                   uploadSessions = [''Session-0'' \<mapsto>
                     \<lparr>totalChunks = 1, receivedChunks = [0 \<mapsto> [1], 5 \<mapsto> [2]],
                      fileType = ''image/png''\<rparr>],
                   nextImageId = 1\<rparr> ''Session-0'' standard
    = Inr (\<lparr>ok = None, err = ''all chunks not received yet''\<rparr>,
           \<lparr>images = Map.empty,
            uploadSessions = [''Session-0'' \<mapsto>
              \<lparr>totalChunks = 1, receivedChunks = [0 \<mapsto> [1], 5 \<mapsto> [2]],
               fileType = ''image/png''\<rparr>],
            nextImageId = 1\<rparr>)"
  by (simp add: finalizeUpload_def)

section \<open>Properties of the enhancement controls\<close>

text \<open>\<open>set\<close> itself stores what it is given: the range of a field is kept by the
  slider, not by \<open>set\<close>.\<close>

lemma set_value_stores_any_value:
  "brightness (set_value K_brightness 500 DEFAULT_ENHANCEMENT_VALUES) = 500"
  by simp

text \<open>
  Claim C10.  The default record is within the declared ranges, and a change made
  through a slider keeps a record within them: the changed field is the requested
  value clamped to its range, every other field is as before.
\<close>

theorem control_surface_keeps_ranges:
  "values_in_range DEFAULT_ENHANCEMENT_VALUES \<and>
   (values_in_range vals \<longrightarrow> values_in_range (sliderChange key requested vals)) \<and>
   sliderChange key requested vals =
     set_value key (max (sliderMin key) (min (sliderMax key) requested)) vals"
  by (cases key)
    (auto simp: values_in_range_def sliderChange_def Slider_onValueChange_def
      DEFAULT_ENHANCEMENT_VALUES_def)

theorem control_surface_keeps_ranges_witness:
  "values_in_range DEFAULT_ENHANCEMENT_VALUES \<and>
   values_in_range (sliderChange K_rotation 90 DEFAULT_ENHANCEMENT_VALUES) \<and>
   sliderChange K_rotation 90 DEFAULT_ENHANCEMENT_VALUES =
     \<lparr>brightness = 0, contrast = 0, saturation = 100, sharpness = 0, noiseReduction = 0,
      rotation = 45\<rparr>"
  using control_surface_keeps_ranges [of DEFAULT_ENHANCEMENT_VALUES K_rotation 90]
  by (simp add: DEFAULT_ENHANCEMENT_VALUES_def values_in_range_def)

section \<open>Properties of the pixel filters\<close>

text \<open>
  The filter loops write four bytes per pixel into a fresh array.  The lemmas below say
  what such a loop leaves at an index: the value written for the pixel that owns the
  index, whatever the other pixels write.
\<close>

lemma nth_upd4:
  "k < length out \<Longrightarrow>
   out[i := a, i + 1 := b, i + 2 := c, i + 3 := d] ! k =
     (if k = i + 3 then d else if k = i + 2 then c else if k = i + 1 then b
      else if k = i then a else out ! k)"
  by (simp add: nth_list_update)





lemma pixel_index_bound:
  fixes x y w h :: nat
  assumes "x < w" "y < h"
  shows "y * w + x < w * h"
proof -
  have "y * w + x < y * w + w" using assms by simp
  also have "\<dots> = (y + 1) * w" by simp
  also have "\<dots> \<le> h * w" using assms by (intro mult_le_mono1) simp
  finally show ?thesis by (simp add: mult.commute)
qed
















text \<open>
  Claim C4.  Each filter returns its input at its neutral parameter: brightness 0,
  contrast 0, saturation 100, sharpness 0, noise reduction 0.  The test comes first in
  each function, so the numeric path is not run.
\<close>

theorem filters_identity_at_neutral:
  "applyBrightness img 0 = img \<and> applyContrast img 0 = img \<and>
   applySaturation img 100 = img \<and> applySharpen img 0 = img \<and>
   applyNoiseReduction img 0 = img"
  by (simp add: applyBrightness_def applyContrast_def applySaturation_def applySharpen_def
      applyNoiseReduction_def)









section \<open>Properties of the canvas operations\<close>

lemma createCanvas_wf:
  "wf_bitmap (createCanvas w h) \<and> width (createCanvas w h) = w \<and> height (createCanvas w h) = h"
  by (simp add: createCanvas_def wf_bitmap_def)

lemma paint_dims:
  "width (paint dest m img sx sy sw sh dx dy dw dh) = width dest \<and>
   height (paint dest m img sx sy sw sh dx dy dw dh) = height dest \<and>
   length (data (paint dest m img sx sy sw sh dx dy dw dh)) = length (data dest)"
  by (simp add: paint_def)

lemma paint_nth:
  assumes "k < length (data dest)"
  shows "data (paint dest m img sx sy sw sh dx dy dw dh) ! k =
           (case sourcePixel m img sx sy sw sh dx dy dw dh
                   ((k div 4) mod width dest) ((k div 4) div width dest) of
              Some q \<Rightarrow> data img ! (4 * q + k mod 4)
            | None \<Rightarrow> data dest ! k)"
  using assms by (simp add: paint_def split: option.splits)

text \<open>Whatever is drawn, a canvas keeps its size.\<close>

lemma drawImage_dims:
  assumes "drawImage dest m src sx sy sw sh dx dy dw dh = Inr c"
  shows "width c = width dest \<and> height c = height dest \<and>
         length (data c) = length (data dest)"
  using assms
  by (auto simp: drawImage_def paint_dims split: ImageSource.splits if_splits)

lemma drawImage_canvas_ok:
  assumes "0 < width c" and "0 < height c"
  shows "\<exists>r. drawImage dest m (CanvasElement c) sx sy sw sh dx dy dw dh = Inr r"
  using assms by (simp add: drawImage_def)

lemma drawImage_image_ok:
  "\<exists>r. drawImage dest m (ImageElement bm) sx sy sw sh dx dy dw dh = Inr r"
  by (simp add: drawImage_def)

text \<open>Addressing a byte by pixel and channel.\<close>

lemma byte_index_decompose:
  fixes w x y ch :: nat
  assumes "x < w" and "ch < 4"
  shows "((4 * (y * w + x) + ch) div 4) mod w = x"
    and "((4 * (y * w + x) + ch) div 4) div w = y"
    and "(4 * (y * w + x) + ch) mod 4 = ch"
proof -
  have "(4 * p + ch) div 4 = p" for p :: nat
    using assms(2) by presburger
  then have d: "(4 * (y * w + x) + ch) div 4 = y * w + x" .
  show "((4 * (y * w + x) + ch) div 4) mod w = x"
    unfolding d using assms(1) by simp
  show "((4 * (y * w + x) + ch) div 4) div w = y"
    unfolding d using assms(1) by simp
  have "(4 * p + ch) mod 4 = ch" for p :: nat
    using assms(2) by presburger
  then show "(4 * (y * w + x) + ch) mod 4 = ch" .
qed

lemma byte_index_bound:
  fixes w h x y ch :: nat
  assumes "x < w" and "y < h" and "ch < 4"
  shows "4 * (y * w + x) + ch < 4 * w * h"
  using pixel_index_bound [OF assms(1,2)] assms(3) by simp

text \<open>Two bitmaps of the same size with the same bytes at every pixel and channel
  are the same bitmap.\<close>

lemma bitmap_eqI:
  fixes b1 b2 :: Bitmap
  assumes wf1: "wf_bitmap b1" and wf2: "wf_bitmap b2"
    and w: "width b1 = width b2" and h: "height b1 = height b2"
    and px: "\<And>x y ch. x < width b2 \<Longrightarrow> y < height b2 \<Longrightarrow> ch < 4 \<Longrightarrow>
               data b1 ! (4 * (y * width b2 + x) + ch) = data b2 ! (4 * (y * width b2 + x) + ch)"
  shows "b1 = b2"
proof -
  have len: "length (data b1) = length (data b2)"
    using wf1 wf2 w h by (simp add: wf_bitmap_def)
  have "data b1 = data b2"
  proof (rule nth_equalityI [OF len])
    fix k assume k: "k < length (data b1)"
    then have k4: "k < 4 * width b2 * height b2"
      using wf1 w h by (simp add: wf_bitmap_def)
    then have wpos: "0 < width b2" by (cases "width b2 = 0") auto
    define p where "p = k div 4"
    define ch where "ch = k mod 4"
    define x where "x = p mod width b2"
    define y where "y = p div width b2"
    have ch: "ch < 4" by (simp add: ch_def)
    have x: "x < width b2" using wpos by (simp add: x_def)
    have "p < width b2 * height b2" using k4 by (simp add: p_def less_mult_imp_div_less mult.commute mult.assoc)
    then have y: "y < height b2"
      by (simp add: y_def less_mult_imp_div_less mult.commute)
    have "k = 4 * p + ch" by (simp add: p_def ch_def)
    also have "p = y * width b2 + x" by (simp add: x_def y_def)
    finally have "k = 4 * (y * width b2 + x) + ch" .
    then show "data b1 ! k = data b2 ! k"
      using px [OF x y ch] by simp
  qed
  then show ?thesis using w h by simp
qed

lemma round_three_halves: "nat (round (real n * 1.5)) = (3 * n + 1) div 2"
proof -
  have "real n * 1.5 + 1 / 2 = real (3 * n + 1) / real 2" by simp
  then have "round (real n * 1.5) = \<lfloor>real (3 * n + 1) / real 2\<rfloor>"
    by (simp only: round_def)
  also have "\<dots> = int ((3 * n + 1) div 2)"
    by (rule floor_divide_of_nat_eq)
  finally show ?thesis by simp
qed

text \<open>
  Claim C5.  For a decoded image of at least one pixel, \<open>upscaleImage\<close> returns a
  canvas of exactly twice the width and twice the height.  It draws twice: first the
  image onto a canvas of \<open>round(1.5 w)\<close> by \<open>round(1.5 h)\<close> pixels (that is,
  \<open>(3 w + 1) div 2\<close> by \<open>(3 h + 1) div 2\<close>), then that canvas onto the canvas of
  \<open>2 w\<close> by \<open>2 h\<close> pixels.
\<close>

theorem upscaleImage_doubles_in_two_passes:
  assumes "loadImage src = Some img" and "0 < width img" and "0 < height img"
  shows "\<exists>step1 out.
     (3 * width img + 1) div 2 = nat (round (real (width img) * 1.5)) \<and>
     (3 * height img + 1) div 2 = nat (round (real (height img) * 1.5)) \<and>
     drawImage5 (createCanvas ((3 * width img + 1) div 2) ((3 * height img + 1) div 2))
        identityTransform (ImageElement img) 0 0
        (real ((3 * width img + 1) div 2)) (real ((3 * height img + 1) div 2)) = Inr step1 \<and>
     width step1 = (3 * width img + 1) div 2 \<and> height step1 = (3 * height img + 1) div 2 \<and>
     upscaleImage loadImage src =
       drawImage5 (createCanvas (2 * width img) (2 * height img)) identityTransform
         (CanvasElement step1) 0 0 (real (2 * width img)) (real (2 * height img)) \<and>
     upscaleImage loadImage src = Inr out \<and>
     width out = 2 * width img \<and> height out = 2 * height img \<and> wf_bitmap out"
proof -
  let ?w1 = "(3 * width img + 1) div 2" and ?h1 = "(3 * height img + 1) div 2"
  obtain step1 where s1: "drawImage5 (createCanvas ?w1 ?h1) identityTransform (ImageElement img)
      0 0 (real ?w1) (real ?h1) = Inr step1"
    unfolding drawImage5_def using drawImage_image_ok by blast
  have d1: "width step1 = ?w1" "height step1 = ?h1"
    using drawImage_dims [OF s1 [unfolded drawImage5_def]] createCanvas_wf by simp_all
  have pos1: "0 < width step1" "0 < height step1"
    using assms(2,3) unfolding d1 by simp_all
  obtain out where s2: "drawImage5 (createCanvas (2 * width img) (2 * height img))
      identityTransform (CanvasElement step1) 0 0 (real (2 * width img)) (real (2 * height img))
      = Inr out"
    unfolding drawImage5_def using drawImage_canvas_ok [OF pos1] by blast
  have d2: "width out = 2 * width img" "height out = 2 * height img"
      "length (data out) = 4 * (2 * width img) * (2 * height img)"
    using drawImage_dims [OF s2 [unfolded drawImage5_def]] createCanvas_wf
    by (simp_all add: createCanvas_def)
  have wf: "wf_bitmap out" using d2 by (simp add: wf_bitmap_def)
  have up: "upscaleImage loadImage src =
       drawImage5 (createCanvas (2 * width img) (2 * height img)) identityTransform
         (CanvasElement step1) 0 0 (real (2 * width img)) (real (2 * height img))"
    unfolding upscaleImage_def assms(1) option.case Let_def round_three_halves
    using s1 by (simp add: createCanvas_wf mult.commute)
  show ?thesis using round_three_halves s1 d1 up s2 d2(1,2) wf by auto
qed


theorem upscaleImage_doubles_in_two_passes_witness:
  "(\<lambda>u. Some \<lparr>width = 3, height = 1, data = [1, 2, 3, 4, 5, 6, 7, 8, 9, 10, 11, 12]\<rparr>)
      ''blob:enhanced''
     = Some \<lparr>width = 3, height = 1, data = [1, 2, 3, 4, 5, 6, 7, 8, 9, 10, 11, 12]\<rparr> \<and>
   (\<exists>out.
      upscaleImage
        (\<lambda>u. Some \<lparr>width = 3, height = 1, data = [1, 2, 3, 4, 5, 6, 7, 8, 9, 10, 11, 12]\<rparr>)
        ''blob:enhanced'' = Inr out \<and>
      width out = 6 \<and> height out = 2)"
proof -
  let ?B = "\<lparr>width = 3, height = 1, data = [1, 2, 3, 4, 5, 6, 7, 8, 9, 10, 11, 12 :: byte]\<rparr>"
  have l: "(\<lambda>u :: string. Some ?B) ''blob:enhanced'' = Some ?B" by simp
  have w: "0 < width ?B" and h: "0 < height ?B" by simp_all
  from upscaleImage_doubles_in_two_passes [OF l w h]
  obtain out where "upscaleImage (\<lambda>u. Some ?B) ''blob:enhanced'' = Inr out"
    and "width out = 2 * width ?B" and "height out = 2 * height ?B"
    by blast
  then show ?thesis by simp
qed


text \<open>Quarter turns: the transformation \<open>rotate90\<close> sets up maps the pixel grid of
  the image onto the pixel grid of the canvas, so that drawing is a remapping by
  index.\<close>

lemma floor_add_half: "\<lfloor>real n + 1 / 2\<rfloor> = int n"
  by (simp add: floor_eq_iff)

lemma floor_sub_half:
  assumes "i < n"
  shows "\<lfloor>real n - (real i + 1 / 2)\<rfloor> = int (n - 1 - i)"
  using assms by (simp add: floor_eq_iff of_nat_diff)

lemma cw_transform:
  "ctx_rotate (ctx_translate identityTransform (real h) 0) (pi / 2)
     = \<lparr>m_a = 0, m_b = 1, m_c = -1, m_d = 0, m_e = real h, m_f = 0\<rparr>"
  by (simp add: ctx_rotate_def ctx_translate_def identityTransform_def)

lemma ccw_transform:
  "ctx_rotate (ctx_translate identityTransform 0 (real w)) (- (pi / 2))
     = \<lparr>m_a = 0, m_b = -1, m_c = 1, m_d = 0, m_e = 0, m_f = real w\<rparr>"
  by (simp add: ctx_rotate_def ctx_translate_def identityTransform_def)

lemma sourcePixel_cw:
  assumes "i < height img" "j < width img"
  shows "sourcePixel \<lparr>m_a = 0, m_b = 1, m_c = -1, m_d = 0, m_e = real (height img), m_f = 0\<rparr>
           img 0 0 (real (width img)) (real (height img))
           0 0 (real (width img)) (real (height img)) i j
         = Some ((height img - 1 - i) * width img + j)"
proof -
  have u: "\<lfloor>real j + 1 / 2\<rfloor> = int j" by (rule floor_add_half)
  have v: "\<lfloor>real (height img) - (real i + 1 / 2)\<rfloor> = int (height img - 1 - i)"
    by (rule floor_sub_half [OF assms(1)])
  show ?thesis
    using assms
    by (simp add: sourcePixel_def Let_def u v del: of_nat_diff)
qed

lemma sourcePixel_ccw:
  assumes "i < height img" "j < width img"
  shows "sourcePixel \<lparr>m_a = 0, m_b = -1, m_c = 1, m_d = 0, m_e = 0, m_f = real (width img)\<rparr>
           img 0 0 (real (width img)) (real (height img))
           0 0 (real (width img)) (real (height img)) i j
         = Some (i * width img + (width img - 1 - j))"
proof -
  have u: "\<lfloor>real i + 1 / 2\<rfloor> = int i" by (rule floor_add_half)
  have v: "\<lfloor>real (width img) - (real j + 1 / 2)\<rfloor> = int (width img - 1 - j)"
    by (rule floor_sub_half [OF assms(2)])
  show ?thesis
    using assms
    by (simp add: sourcePixel_def Let_def u v del: of_nat_diff)
qed

lemma spec_Rotate90_dims:
  "width (spec_Rotate90 bm cw) = height bm \<and> height (spec_Rotate90 bm cw) = width bm \<and>
   wf_bitmap (spec_Rotate90 bm cw)"
  by (simp add: spec_Rotate90_def wf_bitmap_def)

lemma rotate90_is_spec:
  assumes wf: "wf_bitmap c" and w: "0 < width c" and h: "0 < height c"
  shows "rotate90 c cw = Inr (spec_Rotate90 c cw)"
proof -
  let ?W = "real (width c)" and ?H = "real (height c)"
  let ?m = "if cw then \<lparr>m_a = 0, m_b = 1, m_c = -1, m_d = 0, m_e = ?H, m_f = 0\<rparr>
            else \<lparr>m_a = 0, m_b = -1, m_c = 1, m_d = 0, m_e = 0, m_f = ?W\<rparr>"
  let ?r = "paint (createCanvas (height c) (width c)) ?m c 0 0 ?W ?H 0 0 ?W ?H"
  have r: "rotate90 c cw = Inr ?r"
    using w h
    by (simp add: rotate90_def Let_def drawImage3_def drawImage_def createCanvas_wf
        cw_transform ccw_transform)
  have "?r = spec_Rotate90 c cw"
  proof (rule bitmap_eqI)
    show "wf_bitmap ?r" by (simp add: wf_bitmap_def paint_dims createCanvas_def)
    show "wf_bitmap (spec_Rotate90 c cw)" by (simp add: spec_Rotate90_dims)
    show "width ?r = width (spec_Rotate90 c cw)" "height ?r = height (spec_Rotate90 c cw)"
      by (simp_all add: paint_dims createCanvas_wf spec_Rotate90_dims)
    fix i j ch :: nat
    assume "i < width (spec_Rotate90 c cw)" "j < height (spec_Rotate90 c cw)" "ch < 4"
    then have i: "i < height c" and j: "j < width c" and ch: "ch < 4"
      by (simp_all add: spec_Rotate90_dims)
    define k where "k = 4 * (j * height c + i) + ch"
    have k: "k < 4 * height c * width c"
      unfolding k_def by (rule byte_index_bound [OF i j ch])
    have dec: "(k div 4) mod height c = i" "(k div 4) div height c = j" "k mod 4 = ch"
      unfolding k_def by (rule byte_index_decompose [OF i ch])+
    have lhs: "data ?r ! k = data c ! (4 * (if cw then (height c - 1 - i) * width c + j
                                             else i * width c + (width c - 1 - j)) + ch)"
      using k sourcePixel_cw [OF i j] sourcePixel_ccw [OF i j]
      by (simp add: paint_nth createCanvas_def dec)
    have rhs: "data (spec_Rotate90 c cw) ! k =
                 data c ! (4 * (if cw then (height c - 1 - i) * width c + j
                                 else i * width c + (width c - 1 - j)) + ch)"
      using k by (simp add: spec_Rotate90_def dec Let_def)
    have "data ?r ! k = data (spec_Rotate90 c cw) ! k"
      using lhs rhs by simp
    then show "data ?r ! (4 * (j * width (spec_Rotate90 c cw) + i) + ch)
            = data (spec_Rotate90 c cw) ! (4 * (j * width (spec_Rotate90 c cw) + i) + ch)"
      unfolding k_def by (simp only: spec_Rotate90_dims)
  qed
  with r show ?thesis by simp
qed

lemma bitmap_eq_byteAt:
  fixes b1 b2 :: Bitmap
  assumes "wf_bitmap b1" and "wf_bitmap b2"
    and "width b1 = width b2" and "height b1 = height b2"
    and "\<And>x y ch. x < width b2 \<Longrightarrow> y < height b2 \<Longrightarrow> ch < 4 \<Longrightarrow>
               byteAt b1 x y ch = byteAt b2 x y ch"
  shows "b1 = b2"
  using assms(5) unfolding byteAt_def assms(3)
  by (rule bitmap_eqI [OF assms(1-4)])

lemma spec_Rotate90_byteAt:
  assumes i: "i < height bm" and j: "j < width bm" and ch: "ch < 4"
  shows "byteAt (spec_Rotate90 bm cw) i j ch =
           (if cw then byteAt bm j (height bm - 1 - i) ch
            else byteAt bm (width bm - 1 - j) i ch)"
proof -
  define k where "k = 4 * (j * height bm + i) + ch"
  have k: "k < 4 * height bm * width bm"
    unfolding k_def by (rule byte_index_bound [OF i j ch])
  have dec: "(k div 4) mod height bm = i" "(k div 4) div height bm = j" "k mod 4 = ch"
    unfolding k_def by (rule byte_index_decompose [OF i ch])+
  have "data (spec_Rotate90 bm cw) ! k =
          data bm ! (4 * (if cw then (height bm - 1 - i) * width bm + j
                          else i * width bm + (width bm - 1 - j)) + ch)"
    using k by (simp add: spec_Rotate90_def dec Let_def)
  then show ?thesis
    unfolding byteAt_def k_def by (simp add: spec_Rotate90_dims)
qed

lemma spec_Rotate90_four_times:
  assumes wf: "wf_bitmap bm"
  shows "spec_Rotate90 (spec_Rotate90 (spec_Rotate90 (spec_Rotate90 bm cw) cw) cw) cw = bm"
proof -
  define c1 where "c1 = spec_Rotate90 bm cw"
  define c2 where "c2 = spec_Rotate90 c1 cw"
  define c3 where "c3 = spec_Rotate90 c2 cw"
  define c4 where "c4 = spec_Rotate90 c3 cw"
  have d1: "width c1 = height bm" "height c1 = width bm"
    by (simp_all add: c1_def spec_Rotate90_dims)
  have d2: "width c2 = width bm" "height c2 = height bm"
    by (simp_all add: c2_def spec_Rotate90_dims d1)
  have d3: "width c3 = height bm" "height c3 = width bm"
    by (simp_all add: c3_def spec_Rotate90_dims d2)
  have d4: "width c4 = width bm" "height c4 = height bm"
    by (simp_all add: c4_def spec_Rotate90_dims d3)
  have "c4 = bm"
  proof (rule bitmap_eq_byteAt)
    show "wf_bitmap c4" by (simp add: c4_def spec_Rotate90_dims)
    show "wf_bitmap bm" by (rule wf)
    show "width c4 = width bm" "height c4 = height bm" by (rule d4)+
    fix x y ch :: nat
    assume x: "x < width bm" and y: "y < height bm" and ch: "ch < 4"
    have x': "width bm - 1 - x < width bm" and y': "height bm - 1 - y < height bm"
      using x y by simp_all
    have xx: "width bm - Suc (width bm - Suc x) = x"
      and yy: "height bm - Suc (height bm - Suc y) = y"
      using x y by simp_all
    show "byteAt c4 x y ch = byteAt bm x y ch"
    proof (cases cw)
      case True
      have "byteAt c4 x y ch = byteAt c3 y (width bm - 1 - x) ch"
        using x y ch True by (simp add: c4_def spec_Rotate90_byteAt d3)
      also have "\<dots> = byteAt c2 (width bm - 1 - x) (height bm - 1 - y) ch"
        using x' y ch True by (simp add: c3_def spec_Rotate90_byteAt d2)
      also have "\<dots> = byteAt c1 (height bm - 1 - y) x ch"
        using x' y' ch True by (simp add: c2_def spec_Rotate90_byteAt d1 xx)
      also have "\<dots> = byteAt bm x y ch"
        using x y' ch True by (simp add: c1_def spec_Rotate90_byteAt yy)
      finally show ?thesis .
    next
      case False
      have "byteAt c4 x y ch = byteAt c3 (height bm - 1 - y) x ch"
        using x y ch False by (simp add: c4_def spec_Rotate90_byteAt d3)
      also have "\<dots> = byteAt c2 (width bm - 1 - x) (height bm - 1 - y) ch"
        using x y' ch False by (simp add: c3_def spec_Rotate90_byteAt d2)
      also have "\<dots> = byteAt c1 y (width bm - 1 - x) ch"
        using x' y' ch False by (simp add: c2_def spec_Rotate90_byteAt d1 yy)
      also have "\<dots> = byteAt bm x y ch"
        using x' y ch False by (simp add: c1_def spec_Rotate90_byteAt xx)
      finally show ?thesis .
    qed
  qed
  then show ?thesis by (simp add: c4_def c3_def c2_def c1_def)
qed

text \<open>
  Claim C6.  For a canvas of at least one pixel (whose backing store has four bytes per
  pixel), \<open>rotate90\<close> in either direction returns a canvas with width and height
  swapped whose pixels are those of the original remapped by index, and four turns in
  the same direction return the original canvas, byte for byte.
\<close>

theorem rotate90_swaps_and_four_is_identity:
  assumes "wf_bitmap c" and "0 < width c" and "0 < height c"
  shows "\<exists>c1 c2 c3.
           rotate90 c clockwise = Inr c1 \<and> width c1 = height c \<and> height c1 = width c \<and>
           c1 = spec_Rotate90 c clockwise \<and>
           rotate90 c1 clockwise = Inr c2 \<and> rotate90 c2 clockwise = Inr c3 \<and>
           rotate90 c3 clockwise = Inr c"
proof -
  define c1 where "c1 = spec_Rotate90 c clockwise"
  define c2 where "c2 = spec_Rotate90 c1 clockwise"
  define c3 where "c3 = spec_Rotate90 c2 clockwise"
  have p1: "wf_bitmap c1" "width c1 = height c" "height c1 = width c"
    by (simp_all add: c1_def spec_Rotate90_dims)
  have p2: "wf_bitmap c2" "width c2 = width c" "height c2 = height c"
    by (simp_all add: c2_def spec_Rotate90_dims p1)
  have p3: "wf_bitmap c3" "width c3 = height c" "height c3 = width c"
    by (simp_all add: c3_def spec_Rotate90_dims p2)
  have r1: "rotate90 c clockwise = Inr c1"
    unfolding c1_def by (rule rotate90_is_spec [OF assms])
  have r2: "rotate90 c1 clockwise = Inr c2"
    unfolding c2_def using assms p1 by (intro rotate90_is_spec) simp_all
  have r3: "rotate90 c2 clockwise = Inr c3"
    unfolding c3_def using assms p2 by (intro rotate90_is_spec) simp_all
  have "rotate90 c3 clockwise = Inr (spec_Rotate90 c3 clockwise)"
    using assms p3 by (intro rotate90_is_spec) simp_all
  also have "spec_Rotate90 c3 clockwise = c"
    unfolding c3_def c2_def c1_def by (rule spec_Rotate90_four_times [OF assms(1)])
  finally have r4: "rotate90 c3 clockwise = Inr c" .
  show ?thesis using r1 p1(2,3) c1_def r2 r3 r4 by blast
qed


theorem rotate90_swaps_and_four_is_identity_witness:
  "wf_bitmap \<lparr>width = 2, height = 1, data = [1, 2, 3, 4, 5, 6, 7, 8]\<rparr> \<and>
   rotate90 \<lparr>width = 2, height = 1, data = [1, 2, 3, 4, 5, 6, 7, 8]\<rparr> False
     = Inr \<lparr>width = 1, height = 2, data = [5, 6, 7, 8, 1, 2, 3, 4]\<rparr> \<and>
   (\<exists>c2 c3.
      rotate90 \<lparr>width = 1, height = 2, data = [5, 6, 7, 8, 1, 2, 3, 4]\<rparr> False = Inr c2 \<and>
      rotate90 c2 False = Inr c3 \<and>
      rotate90 c3 False = Inr \<lparr>width = 2, height = 1, data = [1, 2, 3, 4, 5, 6, 7, 8]\<rparr>)"
proof -
  let ?B = "\<lparr>width = 2, height = 1, data = [1, 2, 3, 4, 5, 6, 7, 8 :: byte]\<rparr>"
  have wf: "wf_bitmap ?B" by (simp add: wf_bitmap_def)
  have w: "0 < width ?B" and h: "0 < height ?B" by simp_all
  have e: "spec_Rotate90 ?B False = \<lparr>width = 1, height = 2, data = [5, 6, 7, 8, 1, 2, 3, 4]\<rparr>"
    by (simp add: spec_Rotate90_def upt_conv_Cons)
  from rotate90_swaps_and_four_is_identity [OF wf w h, of False]
  obtain c1 c2 c3 where "rotate90 ?B False = Inr c1" and "c1 = spec_Rotate90 ?B False"
    and "rotate90 c1 False = Inr c2" and "rotate90 c2 False = Inr c3"
    and "rotate90 c3 False = Inr ?B"
    by blast
  with wf e show ?thesis by auto
qed

section \<open>Properties of the compositor and of the committing operations\<close>

lemma bitmap_rebuild: "\<lparr>width = width (c :: Bitmap), height = height c, data = data c\<rparr> = c"
  by simp





































end
